theory Spec2Isabelle
  imports Main
begin

section \<open>Values, exceptions and the shared state\<close>

text \<open>
  The values that travel through \<^verbatim>\<open>icon_image_lib/utility.py\<close>: JSON scalars of a
  submitted row, of the remote service's replies and of the columns of
  \<^verbatim>\<open>utb_ImageScraperResult\<close>. \<open>truthy\<close> is Python's truth test, used by
  \<^verbatim>\<open>if task_id:\<close> and \<^verbatim>\<open>result['completeTime']\<close>.
\<close>

datatype pyval = PNone | PInt int | PStr string

fun truthy :: "pyval \<Rightarrow> bool" where
  "truthy PNone = False"
| "truthy (PInt n) = (n \<noteq> 0)"
| "truthy (PStr s) = (s \<noteq> [])"

text \<open>
  \<open>exc\<close> are instances of Python's \<^verbatim>\<open>Exception\<close>: what the HTTP client, the database
  connector and the interpreter raise here. \<open>raised\<close> is what can travel up an
  \<^verbatim>\<open>await\<close>: such an exception, or \<^verbatim>\<open>asyncio.CancelledError\<close>, which derives from
  \<^verbatim>\<open>BaseException\<close> only and is what \<^verbatim>\<open>asyncio.wait_for\<close> throws into the coroutine
  it cancels. \<open>str_exc\<close> is \<^verbatim>\<open>str(e)\<close>.
\<close>

datatype exc =
    NameError string
  | KeyError string
  | TypeError string
  | PoolError string
  | TimeoutError
  | RemoteError string
  | DatabaseError string

datatype raised = Exception exc | CancelledError

fun str_exc :: "exc \<Rightarrow> string" where
  "str_exc (NameError n) = ''name '' @ [CHR 0x27] @ n @ [CHR 0x27] @ '' is not defined''"
| "str_exc (KeyError k) = [CHR 0x27] @ k @ [CHR 0x27]"
| "str_exc (TypeError m) = m"
| "str_exc (PoolError m) = m"
| "str_exc TimeoutError = []"
| "str_exc (RemoteError m) = m"
| "str_exc (DatabaseError m) = m"

text \<open>A row of \<^verbatim>\<open>utb_ImageScraperResult\<close>, with the columns the code names.\<close>

record tracking_row =
  ResultID :: nat
  EntryID :: pyval
  FileID :: pyval
  SearchValue :: pyval
  completeTime :: pyval
  ImageUrl :: pyval
  ImageDesc :: pyval

type_synonym pool_ref = nat

type_synonym queue = "(nat \<times> pool_ref) list"

text \<open>
  Every effect of the module on the outside is recorded in a log, in program order.
\<close>

datatype event =
    CreateTask "string list"
  | Acquire pool_ref
  | Release pool_ref
  | Select nat
  | Insert nat
  | Sleep nat
  | WaitFor nat pool_ref
  | QueueGet nat pool_ref
  | QueuePut nat pool_ref

text \<open>
  The state the code runs in: a logical clock (in the time units of
  \<^verbatim>\<open>asyncio.sleep\<close>), the table, the store's generated-key counter, the number of
  connections this task has checked out of each pool, and the log.
\<close>

record sys =
  clock :: nat
  table :: "tracking_row list"
  lastrowid :: nat
  held :: "pool_ref \<Rightarrow> nat"
  log :: "event list"

text \<open>
  What the code does not control: the remote service's answer to the creation request,
  the module-level name \<^verbatim>\<open>global_connection_pool\<close> (its assignment on lines 18-26 is
  commented out, so the name is bound only if the embedding application binds it:
  \<open>None\<close> is the module as it stands), the size of each pool and the connections other
  submissions hold at each time, database faults, and the external writer that completes
  rows while time passes.
\<close>

record env =
  create_reply :: "string list \<Rightarrow> exc + (string \<times> pyval) list"
  global_connection_pool :: "pool_ref option"
  pool_size :: "pool_ref \<Rightarrow> nat"
  others :: "pool_ref \<Rightarrow> nat \<Rightarrow> nat"
  select_fault :: "nat \<Rightarrow> exc option"
  insert_fault :: "exc option"
  writer :: "nat \<Rightarrow> tracking_row list \<Rightarrow> tracking_row list"

section \<open>The connection pool and the status read\<close>

text \<open>
  \<^verbatim>\<open>pool.get_connection()\<close> raises \<^verbatim>\<open>PoolError\<close> when no connection is free;
  \<^verbatim>\<open>conn.close()\<close> hands the connection back.
\<close>

definition get_connection :: "env \<Rightarrow> pool_ref \<Rightarrow> sys \<Rightarrow> exc + sys" where
  "get_connection e p s =
     (if pool_size e p \<le> others e p (clock s) + held s p
      then Inl (PoolError ''Failed getting connection; pool exhausted'')
      else Inr (s\<lparr>held := (held s)(p := held s p + 1), log := log s @ [Acquire p]\<rparr>))"

definition close_connection :: "pool_ref \<Rightarrow> sys \<Rightarrow> sys" where
  "close_connection p s = s\<lparr>held := (held s)(p := held s p - 1), log := log s @ [Release p]\<rparr>"

text \<open>
  \<^verbatim>\<open>get_task_status\<close> (lines 68-85): acquire, run the \<^verbatim>\<open>SELECT\<close>, fetch one row, and
  close the connection in the \<^verbatim>\<open>finally\<close> clause, also when the query raises.
\<close>

definition get_task_status ::
  "env \<Rightarrow> nat \<Rightarrow> pool_ref \<Rightarrow> sys \<Rightarrow> (exc + tracking_row option) \<times> sys" where
  "get_task_status e task_id pool s =
     (case get_connection e pool s of
        Inl x \<Rightarrow> (Inl x, s)
      | Inr s1 \<Rightarrow>
          (let s2 = s1\<lparr>log := log s1 @ [Select task_id]\<rparr> in
           case select_fault e (clock s2) of
             Some x \<Rightarrow> (Inl x, close_connection pool s2)
           | None \<Rightarrow>
               (Inr (find (\<lambda>r. ResultID r = task_id) (table s2)), close_connection pool s2)))"

section \<open>The completion waiter\<close>

text \<open>
  \<^verbatim>\<open>asyncio.sleep(n)\<close>: the clock advances and the external writer acts meanwhile.
  \<open>cancelled_sleep\<close> is a sleep that the timer of \<^verbatim>\<open>asyncio.wait_for\<close> cuts at the
  deadline.
\<close>

definition sleep :: "env \<Rightarrow> nat \<Rightarrow> sys \<Rightarrow> sys" where
  "sleep e n s =
     s\<lparr>clock := clock s + n, table := writer e (clock s + n) (table s),
        log := log s @ [Sleep n]\<rparr>"

definition cancelled_sleep :: "env \<Rightarrow> nat \<Rightarrow> sys \<Rightarrow> sys" where
  "cancelled_sleep e deadline s =
     s\<lparr>clock := deadline, table := writer e deadline (table s),
        log := log s @ [Sleep (deadline - clock s)]\<rparr>"

text \<open>
  The clause \<^verbatim>\<open>except PoolError as e:\<close> on line 109. The module never binds the name
  \<^verbatim>\<open>PoolError\<close>: its import on line 17 is commented out. Python evaluates the class
  expression of an \<^verbatim>\<open>except\<close> clause when an exception reaches it, whatever that
  exception is, so the lookup itself raises \<^verbatim>\<open>NameError\<close> and the handler's body
  (lines 110-115: the \<^verbatim>\<open>queue.put\<close> and the call of \<^verbatim>\<open>process_queued_item\<close>) is
  never entered. The argument is the exception on its way up.
\<close>

definition except_PoolError :: "raised \<Rightarrow> raised" where
  "except_PoolError x = Exception (NameError ''PoolError'')"

text \<open>
  \<^verbatim>\<open>poll_database\<close> (lines 98-115), run under \<^verbatim>\<open>asyncio.wait_for\<close> with the given
  deadline. Each turn of the loop reads the row in the executor, returns the three
  columns when the row exists and its \<^verbatim>\<open>completeTime\<close> is truthy, and sleeps 5 units
  otherwise. A read takes no logical time, so the deadline always falls into a sleep: a
  sleep that would end before the deadline runs in full and the loop goes on, any other
  sleep is cut at the deadline by the timer's cancellation. Both awaits are inside the
  \<^verbatim>\<open>try\<close>, so whatever is raised there, by \<^verbatim>\<open>get_task_status\<close> or by that
  cancellation, goes through the \<^verbatim>\<open>except\<close> clause. The queue is handed back as it
  was given.
\<close>

function poll_database ::
  "env \<Rightarrow> nat \<Rightarrow> pool_ref \<Rightarrow> queue \<Rightarrow> nat \<Rightarrow> sys
     \<Rightarrow> (raised + pyval \<times> pyval \<times> pyval) \<times> queue \<times> sys" where
  "poll_database e result_id db_pool q deadline s =
     (case get_task_status e result_id db_pool s of
        (Inl x, s1) \<Rightarrow> (Inl (except_PoolError (Exception x)), q, s1)
      | (Inr result, s1) \<Rightarrow>
          (case result of
             Some r \<Rightarrow>
               if truthy (completeTime r) then (Inr (EntryID r, ImageUrl r, ImageDesc r), q, s1)
               else if clock s1 + 5 < deadline
                 then poll_database e result_id db_pool q deadline (sleep e 5 s1)
                 else (Inl (except_PoolError CancelledError), q, cancelled_sleep e deadline s1)
           | None \<Rightarrow>
               if clock s1 + 5 < deadline
                 then poll_database e result_id db_pool q deadline (sleep e 5 s1)
                 else (Inl (except_PoolError CancelledError), q, cancelled_sleep e deadline s1)))"
  by pat_completeness auto

lemma get_task_status_clock:
  "get_task_status e task_id pool s = (r, s1) \<Longrightarrow> clock s1 = clock s"
  by (auto simp: get_task_status_def get_connection_def close_connection_def Let_def
           split: if_splits option.splits)

termination poll_database
  by (relation "measure (\<lambda>(e, result_id, db_pool, q, deadline, s). deadline - clock s)")
     (auto simp: sleep_def dest: get_task_status_clock [OF sym])

text \<open>
  \<^verbatim>\<open>asyncio.wait_for\<close>: the awaited coroutine's result or exception is the caller's; a
  coroutine that ends its cancellation with \<^verbatim>\<open>CancelledError\<close> gives
  \<^verbatim>\<open>TimeoutError\<close>, and an exception raised while the cancelled coroutine unwinds is
  propagated as it is.
\<close>

definition wait_for :: "raised + 'a \<Rightarrow> raised + 'a" where
  "wait_for r = (case r of Inl CancelledError \<Rightarrow> Inl (Exception TimeoutError) | _ \<Rightarrow> r)"

text \<open>
  \<^verbatim>\<open>wait_for_completion\<close> (lines 97-123): the poll under a deadline of 1800 units from
  now; \<^verbatim>\<open>except TimeoutError\<close> turns that one exception into the triple of
  \<^verbatim>\<open>None\<close>s.
\<close>

definition wait_for_completion ::
  "env \<Rightarrow> nat \<Rightarrow> pool_ref \<Rightarrow> queue \<Rightarrow> sys \<Rightarrow> (raised + pyval \<times> pyval \<times> pyval) \<times> queue \<times> sys" where
  "wait_for_completion e result_id db_pool q s =
     (let s0 = s\<lparr>log := log s @ [WaitFor result_id db_pool]\<rparr> in
      case poll_database e result_id db_pool q (clock s0 + 1800) s0 of
        (r, q', s') \<Rightarrow>
          (case wait_for r of
             Inl (Exception TimeoutError) \<Rightarrow> (Inr (PNone, PNone, PNone), q', s')
           | r' \<Rightarrow> (r', q', s')))"

section \<open>The overflow consumer\<close>

text \<open>
  \<^verbatim>\<open>process_queued_item\<close> (lines 87-95), for a single consumer of a queue that nobody
  else fills. The first argument bounds the number of \<^verbatim>\<open>queue.get()\<close> calls; \<open>None\<close>
  is a run that has not returned within that bound. \<^verbatim>\<open>queue.get()\<close> on an empty queue
  never returns. A matching item hands its pool to \<^verbatim>\<open>wait_for_completion\<close>; any other
  item goes back to the tail.
\<close>

fun process_queued_item ::
  "nat \<Rightarrow> env \<Rightarrow> queue \<Rightarrow> nat \<Rightarrow> sys
     \<Rightarrow> ((raised + pyval \<times> pyval \<times> pyval) \<times> queue \<times> sys) option" where
  "process_queued_item 0 e q result_id s = None"
| "process_queued_item (Suc fuel) e q result_id s =
     (case q of
        [] \<Rightarrow> None
      | item # rest \<Rightarrow>
          (let s1 = s\<lparr>log := log s @ [QueueGet (fst item) (snd item)]\<rparr> in
           if fst item = result_id
           then Some (wait_for_completion e result_id (snd item) rest s1)
           else process_queued_item fuel e (rest @ [item]) result_id
                  (s1\<lparr>log := log s1 @ [QueuePut (fst item) (snd item)]\<rparr>)))"

section \<open>The row processor\<close>

text \<open>\<^verbatim>\<open>str()\<close> of a scalar, for the \<^verbatim>\<open>dataset_split\<close> sent to the remote service.\<close>

function str_nat :: "nat \<Rightarrow> string" where
  "str_nat n =
     (if n < 10 then [char_of (48 + n)] else str_nat (n div 10) @ [char_of (48 + n mod 10)])"
  by pat_completeness auto
termination
  by (relation "measure id") auto

declare str_nat.simps [simp del]

fun py_str :: "pyval \<Rightarrow> string" where
  "py_str PNone = ''None''"
| "py_str (PInt i) = (if i < 0 then CHR ''-'' # str_nat (nat (- i)) else str_nat (nat i))"
| "py_str (PStr s) = s"

text \<open>\<^verbatim>\<open>d.get(k)\<close> on a JSON object.\<close>

definition dict_get :: "(string \<times> pyval) list \<Rightarrow> string \<Rightarrow> pyval" where
  "dict_get d k = (case map_of d k of None \<Rightarrow> PNone | Some v \<Rightarrow> v)"

text \<open>
  The dictionary \<^verbatim>\<open>process_row\<close> returns: \<^verbatim>\<open>{"result": {"url": ...}, ...}\<close> or
  \<^verbatim>\<open>{"error": ..., ...}\<close>, each with the keys \<^verbatim>\<open>absoluteRowIndex\<close> and
  \<^verbatim>\<open>originalSearchValue\<close>.
\<close>

datatype row_result =
    Result (url: pyval) (absoluteRowIndex: pyval) (originalSearchValue: pyval)
  | Error (error: string) (absoluteRowIndex: pyval) (originalSearchValue: pyval)

text \<open>
  \<^verbatim>\<open>create_image_task\<close> (lines 28-41): one POST; its \<^verbatim>\<open>except\<close> clause logs and
  re-raises.
\<close>

definition create_image_task ::
  "env \<Rightarrow> string list \<Rightarrow> sys \<Rightarrow> (exc + (string \<times> pyval) list) \<times> sys" where
  "create_image_task e dataset_split s =
     (create_reply e dataset_split, s\<lparr>log := log s @ [CreateTask dataset_split]\<rparr>)"

text \<open>
  \<^verbatim>\<open>process_row\<close> (lines 159-234). \<open>handler\<close> is the clause
  \<^verbatim>\<open>except Exception as e\<close> around the whole body: it catches every \<^verbatim>\<open>Exception\<close>
  and lets \<^verbatim>\<open>CancelledError\<close> pass. The insert has no \<^verbatim>\<open>finally\<close>: when
  \<^verbatim>\<open>execute\<close> raises, the connection is not handed back. The queue given to the
  waiter is a fresh \<^verbatim>\<open>asyncio.Queue()\<close>.
\<close>

definition process_row ::
  "env \<Rightarrow> (string \<times> pyval) list \<Rightarrow> pyval \<Rightarrow> sys \<Rightarrow> (raised + row_result) \<times> sys" where
  "process_row e row uniqueid s =
     (let absolute_row_index = dict_get row ''absoluteRowIndex'';
          original_search_value = dict_get row ''searchValue'';
          handler = (\<lambda>x s'. case x of
                       Exception ex \<Rightarrow>
                         (Inr (Error (str_exc ex) absolute_row_index original_search_value), s')
                     | CancelledError \<Rightarrow> (Inl CancelledError, s'));
          dataset_split = [py_str (dict_get row ''brandValue''), py_str (dict_get row ''searchValue''),
                           py_str absolute_row_index, py_str uniqueid]
      in case create_image_task e dataset_split s of
           (Inl x, s1) \<Rightarrow> handler (Exception x) s1
         | (Inr create_response, s1) \<Rightarrow>
             (let task_id = dict_get create_response ''task_id'' in
              case global_connection_pool e of
                None \<Rightarrow> handler (Exception (NameError ''global_connection_pool'')) s1
              | Some pool \<Rightarrow>
                  (case get_connection e pool s1 of
                     Inl x \<Rightarrow> handler (Exception x) s1
                   | Inr s2 \<Rightarrow>
                       (case insert_fault e of
                          Some x \<Rightarrow> handler (Exception x) s2
                        | None \<Rightarrow>
                            (let result_id = lastrowid s2 + 1;
                                 s3 = close_connection pool
                                        (s2\<lparr>table := table s2 @
                                               [\<lparr>ResultID = result_id, EntryID = absolute_row_index,
                                                 FileID = uniqueid, SearchValue = original_search_value,
                                                 completeTime = PNone, ImageUrl = PNone,
                                                 ImageDesc = PNone\<rparr>],
                                             lastrowid := result_id,
                                             log := log s2 @ [Insert result_id]\<rparr>)
                             in if truthy task_id
                                then (case wait_for_completion e result_id pool [] s3 of
                                        (Inl x, q, s4) \<Rightarrow> handler x s4
                                      | (Inr (entry_id, image_url, image_desc), q, s4) \<Rightarrow>
                                          if entry_id \<noteq> PNone \<and> image_url \<noteq> PNone \<and> image_desc \<noteq> PNone
                                          then (Inr (Result image_url absolute_row_index
                                                       original_search_value), s4)
                                          else (Inr (Error ''Task did not complete successfully.''
                                                       absolute_row_index original_search_value), s4))
                                else (Inr (Error ''Failed to start task.'' absolute_row_index
                                             original_search_value), s3))))))"

section \<open>Polling the remote service\<close>

text \<open>
  What \<^verbatim>\<open>poll_task_status\<close> meets: the JSON object (or the exception) of the k-th
  \<^verbatim>\<open>GET\<close> for a task, the time that request takes, and
  \<^verbatim>\<open>int(os.environ.get('POLL_INTERVAL'))\<close>, which raises when the variable is unset or
  not a number.
\<close>

record poll_env =
  poll_reply :: "pyval \<Rightarrow> nat \<Rightarrow> exc + (string \<times> pyval) list"
  get_latency :: "nat \<Rightarrow> nat"
  POLL_INTERVAL :: "exc + int"

text \<open>
  The loop of \<^verbatim>\<open>poll_task_status\<close> (lines 49-63) at its k-th turn, at time \<open>now\<close>.
  The first argument bounds the number of turns; \<open>None\<close> is a run that has not returned
  within that bound. \<^verbatim>\<open>data['status']\<close> raises \<^verbatim>\<open>KeyError\<close> on an object without
  that key; a sleep of a negative delay returns at once.
\<close>

fun poll_loop ::
  "nat \<Rightarrow> poll_env \<Rightarrow> pyval \<Rightarrow> int \<Rightarrow> nat \<Rightarrow> nat \<Rightarrow> nat
     \<Rightarrow> (exc + (string \<times> pyval) list) option" where
  "poll_loop 0 pe task_id timeout start_time k now = None"
| "poll_loop (Suc fuel) pe task_id timeout start_time k now =
     (if int now - int start_time > timeout
      then Some (Inr [(''error'', PStr ''Polling timeout reached. Task abandoned.'')])
      else case poll_reply pe task_id k of
             Inl x \<Rightarrow> Some (Inl x)
           | Inr data \<Rightarrow>
               (case map_of data ''status'' of
                  None \<Rightarrow> Some (Inl (KeyError ''status''))
                | Some status \<Rightarrow>
                    if status = PStr ''Completed'' then Some (Inr data)
                    else if status \<in> set [PStr ''Failed'', PStr ''Error'']
                    then Some (Inr [(''error'', PStr ''Task failed or encountered an error'')])
                    else (case POLL_INTERVAL pe of
                            Inl x \<Rightarrow> Some (Inl x)
                          | Inr n \<Rightarrow>
                              poll_loop fuel pe task_id timeout start_time (Suc k)
                                (now + get_latency pe k + nat n))))"

text \<open>
  \<^verbatim>\<open>poll_task_status\<close> (lines 44-66), entered at time \<open>now\<close>; its \<^verbatim>\<open>except\<close> clause
  logs and re-raises. The default of \<^verbatim>\<open>timeout\<close> is 5000.
\<close>

definition poll_task_status ::
  "nat \<Rightarrow> poll_env \<Rightarrow> pyval \<Rightarrow> int \<Rightarrow> nat \<Rightarrow> (exc + (string \<times> pyval) list) option" where
  "poll_task_status fuel pe task_id timeout now = poll_loop fuel pe task_id timeout now 0 now"

definition default_timeout :: int where
  "default_timeout = 5000"

section \<open>Observations\<close>

text \<open>
  \<open>held_after h evs\<close> replays a log from \<open>h\<close> connections held: it is \<open>None\<close> as soon
  as a connection is handed back that was not held, a query runs without a connection,
  a sleep starts while a connection is held, or a row is inserted; otherwise it is the
  number of connections held at the end.
\<close>

fun held_after :: "nat \<Rightarrow> event list \<Rightarrow> nat option" where
  "held_after h [] = Some h"
| "held_after h (Acquire p # es) = held_after (Suc h) es"
| "held_after h (Release p # es) = (if h = 0 then None else held_after (h - 1) es)"
| "held_after h (Select n # es) = (if h = 0 then None else held_after h es)"
| "held_after h (Sleep n # es) = (if h = 0 then held_after h es else None)"
| "held_after h (Insert n # es) = None"
| "held_after h (ev # es) = held_after h es"

text \<open>The events the completion waiter may cause.\<close>

fun waiter_event :: "event \<Rightarrow> bool" where
  "waiter_event (Acquire p) = True"
| "waiter_event (Release p) = True"
| "waiter_event (Select n) = True"
| "waiter_event (Sleep n) = True"
| "waiter_event (WaitFor n p) = True"
| "waiter_event ev = False"

text \<open>The test of line 104, \<^verbatim>\<open>result and result['completeTime']\<close>, on a table and on a fetched row.\<close>

definition row_complete :: "tracking_row list \<Rightarrow> nat \<Rightarrow> bool" where
  "row_complete tbl result_id =
     (case find (\<lambda>r. ResultID r = result_id) tbl of
        None \<Rightarrow> False
      | Some r \<Rightarrow> truthy (completeTime r))"

text \<open>The number of status queries in a log.\<close>

fun reads :: "event list \<Rightarrow> nat" where
  "reads [] = 0"
| "reads (Select n # es) = Suc (reads es)"
| "reads (ev # es) = reads es"

definition incomplete :: "tracking_row option \<Rightarrow> bool" where
  "incomplete result = (case result of None \<Rightarrow> True | Some r \<Rightarrow> \<not> truthy (completeTime r))"

text \<open>
  The log of a consumer that takes each item of a queue in turn and puts it back.
\<close>

fun rotations :: "queue \<Rightarrow> event list" where
  "rotations [] = []"
| "rotations (item # rest) =
     QueueGet (fst item) (snd item) # QueuePut (fst item) (snd item) # rotations rest"

text \<open>The number of \<^verbatim>\<open>queue.get()\<close> calls in a log.\<close>

fun dequeues :: "event list \<Rightarrow> nat" where
  "dequeues [] = 0"
| "dequeues (QueueGet n p # es) = Suc (dequeues es)"
| "dequeues (ev # es) = dequeues es"

text \<open>The number of calls of \<^verbatim>\<open>wait_for_completion\<close> in a log.\<close>

fun waits :: "event list \<Rightarrow> nat" where
  "waits [] = 0"
| "waits (WaitFor n p # es) = Suc (waits es)"
| "waits (ev # es) = waits es"

text \<open>
  The list \<^verbatim>\<open>dataset_split\<close> that \<^verbatim>\<open>process_row\<close> builds on line 167.
\<close>

definition dataset_split_of :: "(string \<times> pyval) list \<Rightarrow> pyval \<Rightarrow> string list" where
  "dataset_split_of row uniqueid =
     [py_str (dict_get row ''brandValue''), py_str (dict_get row ''searchValue''),
      py_str (dict_get row ''absoluteRowIndex''), py_str uniqueid]"

text \<open>
  For \<^verbatim>\<open>poll_task_status\<close> with a poll interval of \<open>n\<close>, entered at \<open>now\<close>: the
  time at the top of the k-th turn of the loop, the JSON object of the k-th reply, its
  status, the statuses that end the loop, a reply that is a JSON object with a status,
  and what the loop returns when it stops at its k-th turn.
\<close>

fun tick :: "poll_env \<Rightarrow> int \<Rightarrow> nat \<Rightarrow> nat \<Rightarrow> nat" where
  "tick pe n now 0 = now"
| "tick pe n now (Suc k) = tick pe n now k + get_latency pe k + nat n"

definition reply_data :: "poll_env \<Rightarrow> pyval \<Rightarrow> nat \<Rightarrow> (string \<times> pyval) list" where
  "reply_data pe task_id k = (case poll_reply pe task_id k of Inl x \<Rightarrow> [] | Inr data \<Rightarrow> data)"

definition status_at :: "poll_env \<Rightarrow> pyval \<Rightarrow> nat \<Rightarrow> pyval" where
  "status_at pe task_id k = dict_get (reply_data pe task_id k) ''status''"

definition terminal :: "pyval \<Rightarrow> bool" where
  "terminal status = (status = PStr ''Completed'' \<or> status = PStr ''Failed'' \<or> status = PStr ''Error'')"

definition well_formed :: "poll_env \<Rightarrow> pyval \<Rightarrow> nat \<Rightarrow> bool" where
  "well_formed pe task_id k =
     (case poll_reply pe task_id k of
        Inl x \<Rightarrow> False
      | Inr data \<Rightarrow> map_of data ''status'' \<noteq> None)"

definition outcome :: "poll_env \<Rightarrow> pyval \<Rightarrow> int \<Rightarrow> nat \<Rightarrow> nat \<Rightarrow> (string \<times> pyval) list" where
  "outcome pe task_id timeout elapsed k =
     (if int elapsed > timeout then [(''error'', PStr ''Polling timeout reached. Task abandoned.'')]
      else if status_at pe task_id k = PStr ''Completed'' then reply_data pe task_id k
      else [(''error'', PStr ''Task failed or encountered an error'')])"

section \<open>Concrete scenarios\<close>

text \<open>An empty store at time 0, with no connection checked out.\<close>

definition start :: sys where
  "start = \<lparr>clock = 0, table = [], lastrowid = 0, held = (\<lambda>p. 0), log = []\<rparr>"

text \<open>A pool of one connection that another submission holds at all times.\<close>

definition exhausted_env :: env where
  "exhausted_env =
     \<lparr>create_reply = (\<lambda>d. Inr [(''task_id'', PStr ''t1'')]), global_connection_pool = Some 0,
      pool_size = (\<lambda>p. 1), others = (\<lambda>p t. 1), select_fault = (\<lambda>t. None),
      insert_fault = None, writer = (\<lambda>t tbl. tbl)\<rparr>"

text \<open>A pool of one free connection, a store nobody else writes, and a pending row.\<close>

definition idle_env :: env where
  "idle_env =
     \<lparr>create_reply = (\<lambda>d. Inr [(''task_id'', PStr ''t1'')]), global_connection_pool = Some 0,
      pool_size = (\<lambda>p. 1), others = (\<lambda>p t. 0), select_fault = (\<lambda>t. None),
      insert_fault = None, writer = (\<lambda>t tbl. tbl)\<rparr>"

definition pending_row :: tracking_row where
  "pending_row =
     \<lparr>ResultID = 42, EntryID = PInt 7, FileID = PStr ''batch1'', SearchValue = PStr ''red shoes'',
      completeTime = PNone, ImageUrl = PNone, ImageDesc = PNone\<rparr>"

definition pending :: sys where
  "pending = \<lparr>clock = 0, table = [pending_row], lastrowid = 42, held = (\<lambda>p. 0), log = []\<rparr>"

text \<open>
  The row of result 42 once the external writer has completed it, at time 3.
\<close>

definition completed_row :: tracking_row where
  "completed_row =
     pending_row\<lparr>completeTime := PInt 3, ImageUrl := PStr ''http://x/img.jpg'',
                 ImageDesc := PStr ''shoe''\<rparr>"

definition completed :: sys where
  "completed = \<lparr>clock = 3, table = [completed_row], lastrowid = 42, held = (\<lambda>p. 0), log = []\<rparr>"

text \<open>
  The scenario of the specification: the row of Nike's red shoes, index 7, in batch
  \<open>batch1\<close>; the store hands out result id 42; the external writer completes that
  row at time 3.
\<close>

definition nike_row :: "(string \<times> pyval) list" where
  "nike_row = [(''brandValue'', PStr ''Nike''), (''searchValue'', PStr ''red shoes''),
               (''absoluteRowIndex'', PInt 7)]"

definition scenario_env :: env where
  "scenario_env =
     idle_env\<lparr>writer := (\<lambda>t tbl. if 3 \<le> t
        then map (\<lambda>r. if ResultID r = 42
                       then r\<lparr>completeTime := PInt 3, ImageUrl := PStr ''http://x/img.jpg'',
                              ImageDesc := PStr ''shoe''\<rparr>
                       else r) tbl
        else tbl)\<rparr>"

definition scenario_start :: sys where
  "scenario_start = \<lparr>clock = 0, table = [], lastrowid = 41, held = (\<lambda>p. 0), log = []\<rparr>"

text \<open>A remote service that refuses the creation request, and one that answers without a task id.\<close>

definition refusing_env :: env where
  "refusing_env = idle_env\<lparr>create_reply := (\<lambda>d. Inl (RemoteError ''connection refused''))\<rparr>"

definition no_task_env :: env where
  "no_task_env = idle_env\<lparr>create_reply := (\<lambda>d. Inr [(''detail'', PStr ''queue full'')])\<rparr>"

text \<open>The same answer without a task id, while another submission holds the only connection.\<close>

definition no_task_exhausted_env :: env where
  "no_task_exhausted_env = no_task_env\<lparr>others := (\<lambda>p t. 1)\<rparr>"

text \<open>
  A remote task that is pending at the first poll and completed at the second; a request
  takes 1 unit and the poll interval is 60.
\<close>

definition demo_poll :: poll_env where
  "demo_poll =
     \<lparr>poll_reply = (\<lambda>task_id k. if k = 0 then Inr [(''status'', PStr ''Pending'')]
                        else Inr [(''status'', PStr ''Completed''), (''url'', PStr ''http://x/img.jpg'')]),
      get_latency = (\<lambda>k. 1), POLL_INTERVAL = Inr 60\<rparr>"

text \<open>
  A pool of one connection that another submission holds until time 5 and that is free
  from then on.
\<close>

definition recovering_env :: env where
  "recovering_env = idle_env\<lparr>others := (\<lambda>p t. if t < 5 then 1 else 0)\<rparr>"

section \<open>Properties of the completion waiter\<close>

declare poll_database.simps [simp del]

lemma get_task_status_exhausted:
  "pool_size e p \<le> others e p (clock s) + held s p \<Longrightarrow>
   get_task_status e rid p s = (Inl (PoolError ''Failed getting connection; pool exhausted''), s)"
  by (simp add: get_task_status_def get_connection_def)

lemma get_task_status_cases:
  "get_task_status e rid p s = (r, s1) \<Longrightarrow>
     (r = Inl (PoolError ''Failed getting connection; pool exhausted'') \<and> s1 = s
        \<and> pool_size e p \<le> others e p (clock s) + held s p)
   \<or> (pool_size e p > others e p (clock s) + held s p
        \<and> s1 = s\<lparr>log := log s @ [Acquire p, Select rid, Release p]\<rparr>
        \<and> (case select_fault e (clock s) of Some x \<Rightarrow> r = Inl x
             | None \<Rightarrow> r = Inr (find (\<lambda>r. ResultID r = rid) (table s))))"
  by (auto simp: get_task_status_def get_connection_def close_connection_def Let_def
           split: if_splits option.splits)

lemma poll_database_raise:
  "get_task_status e rid p s = (Inl x, s1) \<Longrightarrow>
   poll_database e rid p q d s = (Inl (Exception (NameError ''PoolError'')), q, s1)"
  by (subst poll_database.simps) (simp add: except_PoolError_def)

lemma poll_database_done:
  "get_task_status e rid p s = (Inr (Some r), s1) \<Longrightarrow> truthy (completeTime r) \<Longrightarrow>
   poll_database e rid p q d s = (Inr (EntryID r, ImageUrl r, ImageDesc r), q, s1)"
  by (subst poll_database.simps) simp

lemma poll_database_loop:
  "get_task_status e rid p s = (Inr result, s1) \<Longrightarrow> incomplete result \<Longrightarrow>
   clock s1 + 5 < d \<Longrightarrow>
   poll_database e rid p q d s = poll_database e rid p q d (sleep e 5 s1)"
  by (subst poll_database.simps) (auto simp: incomplete_def split: option.splits)

lemma poll_database_cut:
  "get_task_status e rid p s = (Inr result, s1) \<Longrightarrow> incomplete result \<Longrightarrow>
   \<not> clock s1 + 5 < d \<Longrightarrow>
   poll_database e rid p q d s
     = (Inl (Exception (NameError ''PoolError'')), q, cancelled_sleep e d s1)"
  by (subst poll_database.simps)
     (auto simp: incomplete_def except_PoolError_def split: option.splits)

lemma poll_database_cases:
  obtains (raise) x s1 where "get_task_status e rid p s = (Inl x, s1)"
      "poll_database e rid p q d s = (Inl (Exception (NameError ''PoolError'')), q, s1)"
    | (complete) r s1 where "get_task_status e rid p s = (Inr (Some r), s1)" "truthy (completeTime r)"
      "poll_database e rid p q d s = (Inr (EntryID r, ImageUrl r, ImageDesc r), q, s1)"
    | (loop) result s1 where "get_task_status e rid p s = (Inr result, s1)" "incomplete result"
      "clock s1 + 5 < d"
      "poll_database e rid p q d s = poll_database e rid p q d (sleep e 5 s1)"
    | (cut) result s1 where "get_task_status e rid p s = (Inr result, s1)" "incomplete result"
      "\<not> clock s1 + 5 < d"
      "poll_database e rid p q d s
         = (Inl (Exception (NameError ''PoolError'')), q, cancelled_sleep e d s1)"
proof -
  obtain r s1 where g: "get_task_status e rid p s = (r, s1)"
    by (cases "get_task_status e rid p s")
  show thesis
  proof (cases r)
    case (Inl x)
    with g raise poll_database_raise show thesis by blast
  next
    case (Inr result)
    show thesis
    proof (cases "incomplete result")
      case True
      with g Inr loop [of result s1] cut [of result s1]
        poll_database_loop [of e rid p s result s1 d q]
        poll_database_cut [of e rid p s result s1 d q]
      show thesis by blast
    next
      case False
      then obtain row where "result = Some row" "truthy (completeTime row)"
        by (auto simp: incomplete_def split: option.splits)
      with g Inr complete [of row s1] poll_database_done [of e rid p s row s1 q d]
      show thesis by blast
    qed
  qed
qed

lemma poll_database_induct':
  assumes step: "\<And>s. (\<And>result s1. get_task_status e rid p s = (Inr result, s1) \<Longrightarrow>
             incomplete result \<Longrightarrow> clock s1 + 5 < d \<Longrightarrow> P (sleep e 5 s1)) \<Longrightarrow> P s"
  shows "P s"
proof (induction "d - clock s" arbitrary: s rule: less_induct)
  case less
  show ?case
  proof (rule step)
    fix result s1
    assume g: "get_task_status e rid p s = (Inr result, s1)" and "clock s1 + 5 < d"
    from get_task_status_clock [OF g] \<open>clock s1 + 5 < d\<close>
    have "d - clock (sleep e 5 s1) < d - clock s" by (simp add: sleep_def)
    then show "P (sleep e 5 s1)" by (rule less)
  qed
qed


lemma held_after_append:
  "held_after h (xs @ ys) = (case held_after h xs of None \<Rightarrow> None | Some h' \<Rightarrow> held_after h' ys)"
  by (induction h xs rule: held_after.induct) auto

lemma reads_append: "reads (xs @ ys) = reads xs + reads ys"
  by (induction xs rule: reads.induct) auto

lemma poll_database_queue: "fst (snd (poll_database e rid p q d s)) = q"
proof (induction s rule: poll_database_induct' [where e = e and rid = rid and p = p and d = d])
  case (1 s)
  show ?case
    by (cases rule: poll_database_cases [of e rid p s q d]) (simp_all add: 1)
qed

lemma poll_database_outcome:
  "fst (poll_database e rid p q d s) = Inl (Exception (NameError ''PoolError''))
   \<or> (\<exists>r::tracking_row. fst (poll_database e rid p q d s) = Inr (EntryID r, ImageUrl r, ImageDesc r)
          \<and> truthy (completeTime r) \<and> ResultID r = rid)"
proof (induction s rule: poll_database_induct' [where e = e and rid = rid and p = p and d = d])
  case (1 s)
  show ?case
  proof (cases rule: poll_database_cases [of e rid p s q d])
    case (complete r s1)
    from get_task_status_cases [OF complete(1)]
    have "find (\<lambda>r. ResultID r = rid) (table s) = Some r"
      by (auto split: option.splits)
    then have "ResultID r = rid"
      by (auto simp: find_Some_iff)
    with complete show ?thesis by (intro disjI2 exI [of _ r]) simp
  qed (simp_all add: 1)
qed

lemma wait_for_completion_poll:
  "wait_for_completion e rid p q s =
     poll_database e rid p q (clock s + 1800) (s\<lparr>log := log s @ [WaitFor rid p]\<rparr>)"
proof -
  let ?res = "poll_database e rid p q (clock s + 1800) (s\<lparr>log := log s @ [WaitFor rid p]\<rparr>)"
  from poll_database_outcome [of e rid p q "clock s + 1800" "s\<lparr>log := log s @ [WaitFor rid p]\<rparr>"]
  have "wait_for (fst ?res) = fst ?res \<and> fst ?res \<noteq> Inl (Exception TimeoutError)"
    by (auto simp: wait_for_def)
  then show ?thesis
    by (cases ?res) (auto simp: wait_for_completion_def Let_def split: sum.splits raised.splits exc.splits)
qed

lemma get_task_status_effects:
  assumes "get_task_status e rid p s = (r, s1)"
  shows "\<exists>evs. log s1 = log s @ evs \<and> held_after 0 evs = Some 0 \<and> list_all waiter_event evs
           \<and> reads evs \<le> 1"
    and "held s1 = held s" and "lastrowid s1 = lastrowid s" and "table s1 = table s"
    and "clock s1 = clock s"
  using get_task_status_cases [OF assms] by auto

lemma poll_database_effects:
  "\<exists>evs. log (snd (snd (poll_database e rid p q d s))) = log s @ evs
         \<and> held_after 0 evs = Some 0 \<and> list_all waiter_event evs"
proof (induction s rule: poll_database_induct' [where e = e and rid = rid and p = p and d = d])
  case (1 s)
  show ?case
  proof (cases rule: poll_database_cases [of e rid p s q d])
    case (raise x s1)
    with get_task_status_effects(1) [OF raise(1)] show ?thesis by auto
  next
    case (complete r s1)
    with get_task_status_effects(1) [OF complete(1)] show ?thesis by auto
  next
    case (loop result s1)
    from get_task_status_effects(1) [OF loop(1)] obtain evs where
      evs: "log s1 = log s @ evs" "held_after 0 evs = Some 0" "list_all waiter_event evs" by blast
    from 1 [OF loop(1-3)] obtain evs' where
      evs': "log (snd (snd (poll_database e rid p q d (sleep e 5 s1)))) = log (sleep e 5 s1) @ evs'"
        "held_after 0 evs' = Some 0" "list_all waiter_event evs'" by blast
    from evs evs' show ?thesis unfolding loop(4)
      by (intro exI [of _ "evs @ Sleep 5 # evs'"]) (simp add: sleep_def held_after_append)
  next
    case (cut result s1)
    from get_task_status_effects(1) [OF cut(1)] obtain evs where
      evs: "log s1 = log s @ evs" "held_after 0 evs = Some 0" "list_all waiter_event evs" by blast
    then show ?thesis unfolding cut(4)
      by (intro exI [of _ "evs @ [Sleep (d - clock s1)]"])
         (simp add: cancelled_sleep_def held_after_append)
  qed
qed

lemma poll_database_frame:
  "held (snd (snd (poll_database e rid p q d s))) = held s
   \<and> lastrowid (snd (snd (poll_database e rid p q d s))) = lastrowid s"
proof (induction s rule: poll_database_induct' [where e = e and rid = rid and p = p and d = d])
  case (1 s)
  show ?case
  proof (cases rule: poll_database_cases [of e rid p s q d])
    case (loop result s1)
    with 1 [OF loop(1-3)] get_task_status_effects(2,3) [OF loop(1)] show ?thesis
      by (simp add: sleep_def)
  next
    case (cut result s1)
    with get_task_status_effects(2,3) [OF cut(1)] show ?thesis
      by (simp add: cancelled_sleep_def)
  qed (use get_task_status_effects(2,3) in auto)
qed

lemma poll_database_table:
  assumes idle: "\<And>t tbl. writer e t tbl = tbl"
  shows "table (snd (snd (poll_database e rid p q d s))) = table s"
proof (induction s rule: poll_database_induct' [where e = e and rid = rid and p = p and d = d])
  case (1 s)
  show ?case
  proof (cases rule: poll_database_cases [of e rid p s q d])
    case (loop result s1)
    with 1 [OF loop(1-3)] get_task_status_effects(4) [OF loop(1)] idle show ?thesis
      by (simp add: sleep_def)
  next
    case (cut result s1)
    with get_task_status_effects(4) [OF cut(1)] idle show ?thesis
      by (simp add: cancelled_sleep_def)
  qed (use get_task_status_effects(4) in auto)
qed


lemma get_task_status_read:
  assumes "others e p (clock s) + held s p < pool_size e p" and "select_fault e (clock s) = None"
  shows "get_task_status e rid p s =
           (Inr (find (\<lambda>r. ResultID r = rid) (table s)),
            s\<lparr>log := log s @ [Acquire p, Select rid, Release p]\<rparr>)"
  using assms
  by (simp add: get_task_status_def get_connection_def close_connection_def Let_def)

lemma incomplete_row_complete:
  "incomplete (find (\<lambda>r. ResultID r = rid) tbl) = (\<not> row_complete tbl rid)"
  by (simp add: incomplete_def row_complete_def split: option.splits)

lemma poll_database_never_complete:
  assumes free: "\<And>t. others e p t + h < pool_size e p"
      and nofault: "\<And>t. select_fault e t = None"
      and keeps: "\<And>t tbl. \<not> row_complete tbl rid \<Longrightarrow> \<not> row_complete (writer e t tbl) rid"
  shows "held s p = h \<Longrightarrow> \<not> row_complete (table s) rid \<Longrightarrow> clock s < d \<Longrightarrow>
     fst (poll_database e rid p q d s) = Inl (Exception (NameError ''PoolError''))
     \<and> clock (snd (snd (poll_database e rid p q d s))) = d
     \<and> reads (log (snd (snd (poll_database e rid p q d s))))
         = reads (log s) + (d - clock s + 4) div 5"
proof (induction s rule: poll_database_induct' [where e = e and rid = rid and p = p and d = d])
  case (1 s)
  let ?s1 = "s\<lparr>log := log s @ [Acquire p, Select rid, Release p]\<rparr>"
  from 1(2) free nofault
  have g: "get_task_status e rid p s = (Inr (find (\<lambda>r. ResultID r = rid) (table s)), ?s1)"
    by (intro get_task_status_read) simp_all
  from 1(3) have inc: "incomplete (find (\<lambda>r. ResultID r = rid) (table s))"
    by (simp add: incomplete_row_complete)
  show ?case
  proof (cases "clock ?s1 + 5 < d")
    case True
    have eq: "poll_database e rid p q d s = poll_database e rid p q d (sleep e 5 ?s1)"
      by (rule poll_database_loop [OF g inc True])
    have "held (sleep e 5 ?s1) p = h" using 1(2) by (simp add: sleep_def)
    moreover have "\<not> row_complete (table (sleep e 5 ?s1)) rid"
      using keeps [OF 1(3)] by (simp add: sleep_def)
    moreover have "clock (sleep e 5 ?s1) < d" using True by (simp add: sleep_def)
    ultimately have ih:
      "fst (poll_database e rid p q d (sleep e 5 ?s1)) = Inl (Exception (NameError ''PoolError''))
       \<and> clock (snd (snd (poll_database e rid p q d (sleep e 5 ?s1)))) = d
       \<and> reads (log (snd (snd (poll_database e rid p q d (sleep e 5 ?s1)))))
           = reads (log (sleep e 5 ?s1)) + (d - clock (sleep e 5 ?s1) + 4) div 5"
      by (rule 1(1) [OF g inc True])
    have "reads (log (sleep e 5 ?s1)) = Suc (reads (log s))"
      by (simp add: sleep_def reads_append)
    moreover from True have "Suc ((d - clock (sleep e 5 ?s1) + 4) div 5) = (d - clock s + 4) div 5"
      by (simp add: sleep_def)
    ultimately show ?thesis using ih unfolding eq by simp
  next
    case False
    have eq: "poll_database e rid p q d s
                = (Inl (Exception (NameError ''PoolError'')), q, cancelled_sleep e d ?s1)"
      by (rule poll_database_cut [OF g inc False])
    from False 1(4) have "(d - clock s + 4) div 5 = 1" by simp
    then show ?thesis unfolding eq
      by (simp add: cancelled_sleep_def reads_append)
  qed
qed

text \<open>
  Claim C3. When the acquisition of a connection meets an exhausted pool, the waiter is
  to push the pair of result id and pool onto the overflow queue and hand over to the
  overflow consumer, so that the condition never reaches the waiter's caller. The code
  does not: the \<^verbatim>\<open>except PoolError\<close> clause names a class the module never imports, so
  the waiter raises \<^verbatim>\<open>NameError\<close> to its caller, and the queue and the log show no
  hand-off.
\<close>

theorem pool_exhaustion_raises_NameError:
  assumes "pool_size e p \<le> others e p (clock s) + held s p"
  shows "wait_for_completion e rid p q s =
           (Inl (Exception (NameError ''PoolError'')), q, s\<lparr>log := log s @ [WaitFor rid p]\<rparr>)"
proof -
  let ?s0 = "s\<lparr>log := log s @ [WaitFor rid p]\<rparr>"
  from assms have "get_task_status e rid p ?s0
      = (Inl (PoolError ''Failed getting connection; pool exhausted''), ?s0)"
    by (intro get_task_status_exhausted) simp
  then have "poll_database e rid p q (clock ?s0 + 1800) ?s0
      = (Inl (Exception (NameError ''PoolError'')), q, ?s0)"
    by (subst poll_database.simps) (simp add: except_PoolError_def)
  then show ?thesis
    by (simp add: wait_for_completion_def wait_for_def Let_def)
qed

theorem pool_exhaustion_raises_NameError_witness:
  "pool_size exhausted_env 0 \<le> others exhausted_env 0 (clock start) + held start 0
   \<and> wait_for_completion exhausted_env 42 0 [] start =
       (Inl (Exception (NameError ''PoolError'')), [], start\<lparr>log := [WaitFor 42 0]\<rparr>)"
proof -
  have h: "pool_size exhausted_env 0 \<le> others exhausted_env 0 (clock start) + held start 0"
    by (simp add: exhausted_env_def start_def)
  show ?thesis
    using h pool_exhaustion_raises_NameError [OF h, of 42 "[]"]
    by (simp add: start_def)
qed

text \<open>
  Claim C2. A wait whose row never gets a \<^verbatim>\<open>completeTime\<close> is to end, once the
  deadline of 1800 units has passed, by returning three \<^verbatim>\<open>None\<close>s, without raising.
  The code ends at the deadline, not before and not later, but by raising: the
  cancellation passes the \<^verbatim>\<open>except PoolError\<close> clause, whose class name is unbound,
  and the \<^verbatim>\<open>NameError\<close> is not the \<^verbatim>\<open>TimeoutError\<close> that line 120 catches.
\<close>

theorem deadline_raises_NameError:
  assumes "\<And>t. others e p t + held s p < pool_size e p"
      and "\<And>t. select_fault e t = None"
      and "\<And>t tbl. \<not> row_complete tbl rid \<Longrightarrow> \<not> row_complete (writer e t tbl) rid"
      and "\<not> row_complete (table s) rid"
  shows "fst (wait_for_completion e rid p q s) = Inl (Exception (NameError ''PoolError''))
         \<and> clock (snd (snd (wait_for_completion e rid p q s))) = clock s + 1800"
proof -
  let ?s0 = "s\<lparr>log := log s @ [WaitFor rid p]\<rparr>"
  have "fst (poll_database e rid p q (clock ?s0 + 1800) ?s0) = Inl (Exception (NameError ''PoolError''))
     \<and> clock (snd (snd (poll_database e rid p q (clock ?s0 + 1800) ?s0))) = clock ?s0 + 1800
     \<and> reads (log (snd (snd (poll_database e rid p q (clock ?s0 + 1800) ?s0))))
         = reads (log ?s0) + (clock ?s0 + 1800 - clock ?s0 + 4) div 5"
    using assms by (intro poll_database_never_complete [where h = "held s p"]) simp_all
  then show ?thesis by (simp add: wait_for_completion_poll)
qed

theorem deadline_raises_NameError_witness:
  "\<not> row_complete (table pending) 42
   \<and> fst (wait_for_completion idle_env 42 0 [] pending) = Inl (Exception (NameError ''PoolError''))
   \<and> clock (snd (snd (wait_for_completion idle_env 42 0 [] pending))) = 1800"
proof -
  have h: "\<not> row_complete (table pending) 42"
    by (simp add: row_complete_def pending_def pending_row_def)
  show ?thesis
    using h deadline_raises_NameError [of idle_env 0 pending 42 "[]"]
    by (simp add: idle_env_def pending_def)
qed

text \<open>
  Claim C9. The waiter takes a missing row and a row whose \<^verbatim>\<open>completeTime\<close> is
  \<^verbatim>\<open>None\<close>, 0 or the empty string alike as not complete and keeps polling: with such
  a row and a store nobody writes, it runs all 360 queries of the 1800 units. The wait
  is then to end with three \<^verbatim>\<open>None\<close>s and never to raise; the code ends it at the
  deadline by raising \<^verbatim>\<open>NameError\<close>.
\<close>

theorem absent_or_falsy_row_polls_to_deadline:
  assumes "\<And>t. others e p t + held s p < pool_size e p"
      and "\<And>t. select_fault e t = None"
      and "\<And>t tbl. writer e t tbl = tbl"
      and "find (\<lambda>r. ResultID r = rid) (table s) = None
           \<or> (\<exists>r. find (\<lambda>r. ResultID r = rid) (table s) = Some r
                 \<and> (completeTime r = PNone \<or> completeTime r = PInt 0 \<or> completeTime r = PStr []))"
  shows "reads (log (snd (snd (wait_for_completion e rid p q s)))) = reads (log s) + 360
         \<and> clock (snd (snd (wait_for_completion e rid p q s))) = clock s + 1800
         \<and> fst (wait_for_completion e rid p q s) = Inl (Exception (NameError ''PoolError''))"
proof -
  let ?s0 = "s\<lparr>log := log s @ [WaitFor rid p]\<rparr>"
  from assms(4) have inc: "\<not> row_complete (table ?s0) rid"
    by (auto simp: row_complete_def)
  have "fst (poll_database e rid p q (clock ?s0 + 1800) ?s0) = Inl (Exception (NameError ''PoolError''))
     \<and> clock (snd (snd (poll_database e rid p q (clock ?s0 + 1800) ?s0))) = clock ?s0 + 1800
     \<and> reads (log (snd (snd (poll_database e rid p q (clock ?s0 + 1800) ?s0))))
         = reads (log ?s0) + (clock ?s0 + 1800 - clock ?s0 + 4) div 5"
    using assms(1-3) inc by (intro poll_database_never_complete [where h = "held s p"]) simp_all
  then show ?thesis by (simp add: wait_for_completion_poll reads_append)
qed

theorem absent_or_falsy_row_polls_to_deadline_witness:
  "find (\<lambda>r. ResultID r = 42) (table start) = None
   \<and> reads (log (snd (snd (wait_for_completion idle_env 42 0 [] start)))) = 360
   \<and> clock (snd (snd (wait_for_completion idle_env 42 0 [] start))) = 1800
   \<and> fst (wait_for_completion idle_env 42 0 [] start) = Inl (Exception (NameError ''PoolError''))"
proof -
  have h: "find (\<lambda>r. ResultID r = 42) (table start) = None"
    by (simp add: start_def)
  show ?thesis
    using h absent_or_falsy_row_polls_to_deadline [of idle_env 0 start 42 "[]"]
    by (simp add: idle_env_def start_def)
qed

section \<open>Properties of the overflow consumer\<close>

lemma process_queued_item_match:
  assumes "\<forall>item \<in> set pre. fst item \<noteq> rid"
  shows "process_queued_item (Suc (length pre) + n) e (pre @ (rid, pool) # rest) rid s =
           Some (wait_for_completion e rid pool (rest @ pre)
                   (s\<lparr>log := log s @ rotations pre @ [QueueGet rid pool]\<rparr>))"
  using assms
proof (induction pre arbitrary: rest s)
  case Nil
  then show ?case by simp
next
  case (Cons item pre)
  from Cons.prems have ne: "fst item \<noteq> rid" and pre: "\<forall>item \<in> set pre. fst item \<noteq> rid"
    by simp_all
  from Cons.IH [OF pre, of "rest @ [item]"] ne show ?case
    by (simp add: Let_def)
qed

lemma process_queued_item_no_match:
  "\<forall>item \<in> set q. fst item \<noteq> rid \<Longrightarrow> process_queued_item fuel e q rid s = None"
proof (induction fuel arbitrary: q s)
  case 0
  then show ?case by simp
next
  case (Suc fuel)
  show ?case
  proof (cases q)
    case Nil
    then show ?thesis by simp
  next
    case (Cons item rest)
    with Suc.prems have "fst item \<noteq> rid" "\<forall>item \<in> set (rest @ [item]). fst item \<noteq> rid"
      by auto
    with Suc.IH Cons show ?thesis by (simp add: Let_def)
  qed
qed

lemma wait_for_completion_complete:
  assumes "others e p (clock s) + held s p < pool_size e p" and "select_fault e (clock s) = None"
      and "find (\<lambda>r. ResultID r = rid) (table s) = Some r" and "truthy (completeTime r)"
  shows "wait_for_completion e rid p q s =
           (Inr (EntryID r, ImageUrl r, ImageDesc r), q,
            s\<lparr>log := log s @ [WaitFor rid p, Acquire p, Select rid, Release p]\<rparr>)"
proof -
  let ?s0 = "s\<lparr>log := log s @ [WaitFor rid p]\<rparr>"
  from assms(1-3) have "get_task_status e rid p ?s0 =
      (Inr (Some r), ?s0\<lparr>log := log ?s0 @ [Acquire p, Select rid, Release p]\<rparr>)"
    using get_task_status_read [of e p ?s0 rid] by simp
  from poll_database_done [OF this assms(4)] show ?thesis
    by (simp add: wait_for_completion_poll)
qed

lemma dequeues_append: "dequeues (xs @ ys) = dequeues xs + dequeues ys"
  by (induction xs rule: dequeues.induct) auto

lemma dequeues_rotations: "dequeues (rotations pre) = length pre"
  by (induction pre) auto

lemma dequeues_waiter: "list_all waiter_event evs \<Longrightarrow> dequeues evs = 0"
  by (induction evs rule: dequeues.induct) auto

lemma wait_for_completion_dequeues:
  "dequeues (log (snd (snd (wait_for_completion e rid p q s)))) = dequeues (log s)"
proof -
  let ?s0 = "s\<lparr>log := log s @ [WaitFor rid p]\<rparr>"
  from poll_database_effects [of e rid p q "clock s + 1800" ?s0]
  obtain evs where "log (snd (snd (poll_database e rid p q (clock s + 1800) ?s0))) = log ?s0 @ evs"
    "list_all waiter_event evs" by blast
  then show ?thesis
    by (simp add: wait_for_completion_poll dequeues_append dequeues_waiter)
qed

lemma wait_for_completion_exhausted:
  assumes "pool_size e p \<le> others e p (clock s) + held s p"
  shows "wait_for_completion e rid p q s =
           (Inl (Exception (NameError ''PoolError'')), q, s\<lparr>log := log s @ [WaitFor rid p]\<rparr>)"
proof -
  let ?s0 = "s\<lparr>log := log s @ [WaitFor rid p]\<rparr>"
  from assms have "get_task_status e rid p ?s0
      = (Inl (PoolError ''Failed getting connection; pool exhausted''), ?s0)"
    by (intro get_task_status_exhausted) simp
  from poll_database_raise [OF this] show ?thesis
    by (simp add: wait_for_completion_poll)
qed

text \<open>
  Claim C6. On any queue, the overflow consumer waiting for a result id takes the head
  item; an item of another id goes back to the tail and the next one is taken; the item
  of the wanted id sends the consumer into the completion waiter with the pool that item
  carries. Consequently a wait for result A that was queued under pool exhaustion is to
  complete once A's item has been rotated to the head. The consumer does rotate and
  match as said (third statement below). But a wait that meets an exhausted pool is
  never queued: it raises \<^verbatim>\<open>NameError\<close> and leaves the queue as it was, so a consumer
  of that queue never finds an item of A and never returns; and when an item of A is in
  the queue and its pool is still exhausted at the match, the consumer ends with that
  \<^verbatim>\<open>NameError\<close> and queues nothing again.
\<close>

theorem exhausted_wait_is_not_queued:
  assumes "\<forall>item \<in> set q. fst item \<noteq> rid"
      and "pool_size e pool \<le> others e pool (clock s) + held s pool"
  shows "wait_for_completion e rid pool q s =
           (Inl (Exception (NameError ''PoolError'')), q, s\<lparr>log := log s @ [WaitFor rid pool]\<rparr>)
         \<and> (\<forall>fuel. process_queued_item fuel e q rid (s\<lparr>log := log s @ [WaitFor rid pool]\<rparr>) = None)
         \<and> process_queued_item (Suc (length q)) e (q @ (rid, pool) # rest) rid s =
             Some (wait_for_completion e rid pool (rest @ q)
                     (s\<lparr>log := log s @ rotations q @ [QueueGet rid pool]\<rparr>))
         \<and> process_queued_item (Suc (length q)) e (q @ (rid, pool) # rest) rid s =
             Some (Inl (Exception (NameError ''PoolError'')), rest @ q,
                   s\<lparr>log := log s @ rotations q @ [QueueGet rid pool, WaitFor rid pool]\<rparr>)"
proof -
  let ?s1 = "s\<lparr>log := log s @ rotations q @ [QueueGet rid pool]\<rparr>"
  have a: "wait_for_completion e rid pool q s =
      (Inl (Exception (NameError ''PoolError'')), q, s\<lparr>log := log s @ [WaitFor rid pool]\<rparr>)"
    by (rule wait_for_completion_exhausted [OF assms(2)])
  have b: "process_queued_item fuel e q rid (s\<lparr>log := log s @ [WaitFor rid pool]\<rparr>) = None"
    for fuel
    by (rule process_queued_item_no_match [OF assms(1)])
  have c: "process_queued_item (Suc (length q)) e (q @ (rid, pool) # rest) rid s =
      Some (wait_for_completion e rid pool (rest @ q) ?s1)"
    using process_queued_item_match [OF assms(1), of 0 e pool rest s] by simp
  have "wait_for_completion e rid pool (rest @ q) ?s1 =
      (Inl (Exception (NameError ''PoolError'')), rest @ q,
       ?s1\<lparr>log := log ?s1 @ [WaitFor rid pool]\<rparr>)"
    using assms(2) by (intro wait_for_completion_exhausted) simp
  with c have d: "process_queued_item (Suc (length q)) e (q @ (rid, pool) # rest) rid s =
      Some (Inl (Exception (NameError ''PoolError'')), rest @ q,
            s\<lparr>log := log s @ rotations q @ [QueueGet rid pool, WaitFor rid pool]\<rparr>)"
    by simp
  from a b c d show ?thesis by blast
qed

theorem exhausted_wait_is_not_queued_witness:
  "wait_for_completion recovering_env 42 0 [(7, 1), (8, 2)] completed =
     (Inl (Exception (NameError ''PoolError'')), [(7, 1), (8, 2)],
      completed\<lparr>log := [WaitFor 42 0]\<rparr>)
   \<and> (\<forall>fuel. process_queued_item fuel recovering_env [(7, 1), (8, 2)] 42
                (completed\<lparr>log := [WaitFor 42 0]\<rparr>) = None)
   \<and> process_queued_item 3 recovering_env [(7, 1), (8, 2), (42, 0), (9, 3)] 42 completed =
       Some (Inl (Exception (NameError ''PoolError'')), [(9, 3), (7, 1), (8, 2)],
             completed\<lparr>log := [QueueGet 7 1, QueuePut 7 1, QueueGet 8 2, QueuePut 8 2,
                               QueueGet 42 0, WaitFor 42 0]\<rparr>)"
proof -
  have h: "\<forall>item \<in> set [(7::nat, 1::nat), (8, 2)]. fst item \<noteq> 42" by simp
  have x: "pool_size recovering_env 0 \<le> others recovering_env 0 (clock completed) + held completed 0"
    by (simp add: recovering_env_def idle_env_def completed_def)
  have l: "log completed = []" by (simp add: completed_def)
  from exhausted_wait_is_not_queued [OF h x, where rest = "[(9, 3)]"]
  show ?thesis
    by (simp add: l numeral_3_eq_3)
qed

text \<open>
  Claim C10. For a single consumer and no producer, the overflow consumer on a queue of
  n items returns after at most n takes when some item carries the wanted id, and never
  returns (it rotates the items for ever, or blocks on the empty queue) when none does.
\<close>

theorem overflow_consumer_terminates_iff_queued:
  "((\<exists>item \<in> set q. fst item = rid) \<longrightarrow>
      (\<exists>r. process_queued_item (length q) e q rid s = Some r
          \<and> dequeues (log (snd (snd r))) \<le> dequeues (log s) + length q))
   \<and> ((\<forall>item \<in> set q. fst item \<noteq> rid) \<longrightarrow>
        (\<forall>fuel. process_queued_item fuel e q rid s = None))"
proof (intro conjI impI allI)
  assume "\<exists>item \<in> set q. fst item = rid"
  then obtain pre item rest where q: "q = pre @ item # rest" and item: "fst item = rid"
    and pre: "\<forall>x \<in> set pre. fst x \<noteq> rid"
    using split_list_first_prop [of q "\<lambda>item. fst item = rid"] by blast
  from item have it: "item = (rid, snd item)" by (cases item) simp
  let ?s1 = "s\<lparr>log := log s @ rotations pre @ [QueueGet rid (snd item)]\<rparr>"
  have "process_queued_item (length q) e q rid s =
          Some (wait_for_completion e rid (snd item) (rest @ pre) ?s1)"
    using process_queued_item_match [OF pre, of "length rest" e "snd item" rest s] q it
    by simp
  moreover have "dequeues (log (snd (snd (wait_for_completion e rid (snd item) (rest @ pre) ?s1))))
      \<le> dequeues (log s) + length q"
    by (simp add: wait_for_completion_dequeues dequeues_append dequeues_rotations q)
  ultimately show "\<exists>r. process_queued_item (length q) e q rid s = Some r
      \<and> dequeues (log (snd (snd r))) \<le> dequeues (log s) + length q"
    by blast
next
  fix fuel
  assume "\<forall>item \<in> set q. fst item \<noteq> rid"
  then show "process_queued_item fuel e q rid s = None"
    by (rule process_queued_item_no_match)
qed

theorem overflow_consumer_terminates_iff_queued_witness:
  "(\<exists>r. process_queued_item 3 idle_env [(7, 1), (42, 0), (9, 3)] 42 completed = Some r
        \<and> dequeues (log (snd (snd r))) \<le> 3)
   \<and> (\<forall>fuel. process_queued_item fuel idle_env [(7, 1), (9, 3)] 42 completed = None)
   \<and> (\<forall>fuel. process_queued_item fuel idle_env [] 42 completed = None)"
proof -
  have a: "\<exists>item \<in> set [(7::nat, 1::nat), (42, 0), (9, 3)]. fst item = 42" by simp
  have b: "\<forall>item \<in> set [(7::nat, 1::nat), (9, 3)]. fst item \<noteq> 42" by simp
  have c: "\<forall>item \<in> set ([] :: queue). fst item \<noteq> 42" by simp
  from overflow_consumer_terminates_iff_queued [of "[(7, 1), (42, 0), (9, 3)]" 42 idle_env completed] a
    overflow_consumer_terminates_iff_queued [of "[(7, 1), (9, 3)]" 42 idle_env completed] b
    overflow_consumer_terminates_iff_queued [of "[]" 42 idle_env completed] c
  show ?thesis by (simp add: numeral_3_eq_3 completed_def)
qed

section \<open>Frame of the completion waiter\<close>

lemma waits_append: "waits (xs @ ys) = waits xs + waits ys"
  by (induction xs rule: waits.induct) auto

lemma wait_for_completion_outcome:
  "fst (wait_for_completion e rid p q s) = Inl (Exception (NameError ''PoolError''))
   \<or> (\<exists>r::tracking_row. fst (wait_for_completion e rid p q s)
                          = Inr (EntryID r, ImageUrl r, ImageDesc r)
          \<and> truthy (completeTime r) \<and> ResultID r = rid)"
  unfolding wait_for_completion_poll by (rule poll_database_outcome)

lemma wait_for_completion_effects:
  "\<exists>evs. log (snd (snd (wait_for_completion e rid p q s))) = log s @ evs
         \<and> held_after 0 evs = Some 0 \<and> list_all waiter_event evs"
proof -
  let ?s0 = "s\<lparr>log := log s @ [WaitFor rid p]\<rparr>"
  from poll_database_effects [of e rid p q "clock s + 1800" ?s0]
  obtain evs where "log (snd (snd (poll_database e rid p q (clock s + 1800) ?s0))) = log ?s0 @ evs"
    "held_after 0 evs = Some 0" "list_all waiter_event evs" by blast
  then show ?thesis
    by (intro exI [of _ "WaitFor rid p # evs"]) (simp add: wait_for_completion_poll)
qed

text \<open>
  Claim C7. In every run of the completion waiter the result store is only read: the
  events the waiter adds to the log contain no insert, the store's key counter is as it
  was, and with no external writer the table is as it was. Every query runs on a
  connection acquired just before it and handed back just after it, and no sleep starts
  while a connection is held (\<open>held_after\<close> replays the added events from no
  connection held and ends with none held); the pool is left as it was found.
\<close>

theorem waiter_reads_only_and_brackets_each_read:
  "(\<exists>evs. log (snd (snd (wait_for_completion e rid p q s))) = log s @ evs
          \<and> held_after 0 evs = Some 0)
   \<and> held (snd (snd (wait_for_completion e rid p q s))) = held s
   \<and> lastrowid (snd (snd (wait_for_completion e rid p q s))) = lastrowid s
   \<and> ((\<forall>t tbl. writer e t tbl = tbl) \<longrightarrow>
        table (snd (snd (wait_for_completion e rid p q s))) = table s)"
proof (intro conjI impI)
  show "\<exists>evs. log (snd (snd (wait_for_completion e rid p q s))) = log s @ evs
          \<and> held_after 0 evs = Some 0"
    using wait_for_completion_effects [of e rid p q s] by blast
  show "held (snd (snd (wait_for_completion e rid p q s))) = held s"
    by (simp add: wait_for_completion_poll poll_database_frame)
  show "lastrowid (snd (snd (wait_for_completion e rid p q s))) = lastrowid s"
    by (simp add: wait_for_completion_poll poll_database_frame)
  assume "\<forall>t tbl. writer e t tbl = tbl"
  then show "table (snd (snd (wait_for_completion e rid p q s))) = table s"
    by (simp add: wait_for_completion_poll poll_database_table)
qed

theorem waiter_reads_only_and_brackets_each_read_witness:
  "(\<exists>evs. log (snd (snd (wait_for_completion idle_env 42 0 [] pending))) = log pending @ evs
          \<and> held_after 0 evs = Some 0)
   \<and> held (snd (snd (wait_for_completion idle_env 42 0 [] pending))) = held pending
   \<and> lastrowid (snd (snd (wait_for_completion idle_env 42 0 [] pending))) = lastrowid pending
   \<and> table (snd (snd (wait_for_completion idle_env 42 0 [] pending))) = table pending"
proof -
  have idle: "\<forall>t tbl. writer idle_env t tbl = tbl" by (simp add: idle_env_def)
  from waiter_reads_only_and_brackets_each_read [of idle_env 42 0 "[]" pending] idle
  show ?thesis by blast
qed

section \<open>Properties of the row processor\<close>

text \<open>
  Claim C1. For every submitted row, \<^verbatim>\<open>process_row\<close> returns a result object
  that carries the row's \<^verbatim>\<open>absoluteRowIndex\<close> and \<^verbatim>\<open>searchValue\<close>, on the
  success path and on every failure path, and raises nothing to its caller.
\<close>

theorem process_row_always_returns:
  "\<exists>r. fst (process_row e row uniqueid s) = Inr r
      \<and> absoluteRowIndex r = dict_get row ''absoluteRowIndex''
      \<and> originalSearchValue r = dict_get row ''searchValue''"
proof -
  have w: "\<And>rid p q s'. fst (wait_for_completion e rid p q s') \<noteq> Inl CancelledError"
    using wait_for_completion_outcome by (metis Inl_Inr_False raised.distinct(1) sum.inject(1))
  have w': "\<And>rid p q s' a b. wait_for_completion e rid p q s' \<noteq> (Inl CancelledError, a, b)"
    using w by (metis fst_conv)
  show ?thesis
    unfolding process_row_def Let_def create_image_task_def
    using w'
    by (auto split: prod.splits sum.splits option.splits raised.splits)
qed

lemma fun_upd_const: "(\<lambda>p. c)(x := c) = (\<lambda>p. c)"
  by (rule ext) simp

lemma scenario_run:
  "fst (process_row scenario_env nike_row (PStr ''batch1'') scenario_start) =
     Inr (Result (PStr ''http://x/img.jpg'') (PInt 7) (PStr ''red shoes''))
   \<and> clock (snd (process_row scenario_env nike_row (PStr ''batch1'') scenario_start)) = 5"
proof -
  define ds where "ds = dataset_split_of nike_row (PStr ''batch1'')"
  define row0 where "row0 = \<lparr>ResultID = 42, EntryID = PInt 7, FileID = PStr ''batch1'',
      SearchValue = PStr ''red shoes'', completeTime = PNone, ImageUrl = PNone, ImageDesc = PNone\<rparr>"
  define s3 where "s3 = \<lparr>clock = 0, table = [row0], lastrowid = 42, held = (\<lambda>p. 0::nat),
      log = [CreateTask ds, Acquire 0, Insert 42, Release 0]\<rparr>"
  define s4 where "s4 = s3\<lparr>log := log s3 @ [WaitFor 42 0]\<rparr>"
  define s5 where "s5 = s4\<lparr>log := log s4 @ [Acquire 0, Select 42, Release 0]\<rparr>"
  define s6 where "s6 = sleep scenario_env 5 s5"
  define row1 where "row1 = row0\<lparr>completeTime := PInt 3, ImageUrl := PStr ''http://x/img.jpg'',
      ImageDesc := PStr ''shoe''\<rparr>"
  define s7 where "s7 = s6\<lparr>log := log s6 @ [Acquire 0, Select 42, Release 0]\<rparr>"
  have g1: "get_task_status scenario_env 42 0 s4 = (Inr (Some row0), s5)"
    unfolding s5_def
    using get_task_status_read [of scenario_env 0 s4 42]
    by (simp add: scenario_env_def idle_env_def s4_def s3_def row0_def)
  have t6: "table s6 = [row1]" "clock s6 = 5" "held s6 = (\<lambda>p. 0)"
    by (simp_all add: s6_def sleep_def s5_def s4_def s3_def scenario_env_def row0_def row1_def)
  have g2: "get_task_status scenario_env 42 0 s6 = (Inr (Some row1), s7)"
    unfolding s7_def
    using get_task_status_read [of scenario_env 0 s6 42] t6
    by (simp add: scenario_env_def idle_env_def row1_def row0_def)
  have "poll_database scenario_env 42 0 [] (clock s4 + 1800) s4
          = poll_database scenario_env 42 0 [] (clock s4 + 1800) s6"
    unfolding s6_def
    by (rule poll_database_loop [OF g1])
       (simp_all add: incomplete_def row0_def s5_def s4_def s3_def)
  also have "\<dots> = (Inr (EntryID row1, ImageUrl row1, ImageDesc row1), [], s7)"
    by (rule poll_database_done [OF g2]) (simp add: row1_def)
  finally have w: "wait_for_completion scenario_env 42 0 [] s3
      = (Inr (PInt 7, PStr ''http://x/img.jpg'', PStr ''shoe''), [], s7)"
    by (simp add: wait_for_completion_poll s4_def s3_def row1_def row0_def)
  have "process_row scenario_env nike_row (PStr ''batch1'') scenario_start =
      (Inr (Result (PStr ''http://x/img.jpg'') (PInt 7) (PStr ''red shoes'')), s7)"
    unfolding process_row_def Let_def create_image_task_def
    using w
    by (simp add: scenario_env_def idle_env_def scenario_start_def nike_row_def dict_get_def
          get_connection_def close_connection_def s3_def row0_def ds_def dataset_split_of_def
          fun_upd_const)
  moreover have "clock s7 = 5" using t6 by (simp add: s7_def)
  ultimately show ?thesis by simp
qed

theorem process_row_always_returns_witness:
  "(\<exists>r. fst (process_row scenario_env nike_row (PStr ''batch1'') scenario_start) = Inr r
       \<and> absoluteRowIndex r = dict_get nike_row ''absoluteRowIndex''
       \<and> originalSearchValue r = dict_get nike_row ''searchValue'')
   \<and> fst (process_row scenario_env nike_row (PStr ''batch1'') scenario_start) =
       Inr (Result (PStr ''http://x/img.jpg'') (PInt 7) (PStr ''red shoes''))"
  by (rule conjI [OF process_row_always_returns conjunct1 [OF scenario_run]])

text \<open>
  Claim C4. When the remote creation call raises, no tracking row is inserted: the
  store is as it was, the only effect is the creation request itself, and the result
  carries an error field (the text of the exception).
\<close>

theorem failed_creation_inserts_nothing:
  assumes "create_reply e (dataset_split_of row uniqueid) = Inl x"
  shows "process_row e row uniqueid s =
           (Inr (Error (str_exc x) (dict_get row ''absoluteRowIndex'') (dict_get row ''searchValue'')),
            s\<lparr>log := log s @ [CreateTask (dataset_split_of row uniqueid)]\<rparr>)
         \<and> table (snd (process_row e row uniqueid s)) = table s
         \<and> lastrowid (snd (process_row e row uniqueid s)) = lastrowid s"
  using assms
  by (simp add: process_row_def Let_def create_image_task_def dataset_split_of_def)

theorem failed_creation_inserts_nothing_witness:
  "fst (process_row refusing_env nike_row (PStr ''batch1'') pending) =
     Inr (Error ''connection refused'' (PInt 7) (PStr ''red shoes''))
   \<and> table (snd (process_row refusing_env nike_row (PStr ''batch1'') pending)) = [pending_row]
   \<and> lastrowid (snd (process_row refusing_env nike_row (PStr ''batch1'') pending)) = 42"
proof -
  have h: "create_reply refusing_env (dataset_split_of nike_row (PStr ''batch1''))
             = Inl (RemoteError ''connection refused'')"
    by (simp add: refusing_env_def)
  from failed_creation_inserts_nothing [OF h, of pending] show ?thesis
    by (simp add: nike_row_def dict_get_def pending_def)
qed

text \<open>
  Claim C5, as stated: whenever the creation call succeeds with a response that has no
  task id, the result's error is \<open>Failed to start task.\<close> and the waiter is not
  invoked. The insert of the tracking row comes before the test of the task id (lines
  171-179 and 199), so when the insert raises, here on an exhausted pool, the error is
  the text of that exception instead.
\<close>

theorem no_task_id_counterexample:
  "create_reply no_task_exhausted_env (dataset_split_of nike_row (PStr ''batch1''))
     = Inr [(''detail'', PStr ''queue full'')]
   \<and> dict_get [(''detail'', PStr ''queue full'')] ''task_id'' = PNone
   \<and> fst (process_row no_task_exhausted_env nike_row (PStr ''batch1'') start)
       = Inr (Error ''Failed getting connection; pool exhausted'' (PInt 7) (PStr ''red shoes''))
   \<and> fst (process_row no_task_exhausted_env nike_row (PStr ''batch1'') start)
       \<noteq> Inr (Error ''Failed to start task.'' (PInt 7) (PStr ''red shoes''))"
  by (simp add: process_row_def Let_def create_image_task_def get_connection_def
        no_task_exhausted_env_def no_task_env_def idle_env_def
        start_def nike_row_def dict_get_def)

text \<open>
  Claim C5, amended: when the creation call succeeds with a response whose task id is
  missing or falsy, the completion waiter is never invoked and the result is an error;
  the error is \<open>Failed to start task.\<close> whenever the insert of the tracking row
  succeeds.
\<close>

theorem no_task_id_fails_without_waiting:
  assumes "create_reply e (dataset_split_of row uniqueid) = Inr resp"
      and "\<not> truthy (dict_get resp ''task_id'')"
  shows "waits (log (snd (process_row e row uniqueid s))) = waits (log s)
         \<and> (\<exists>m. fst (process_row e row uniqueid s)
                   = Inr (Error m (dict_get row ''absoluteRowIndex'') (dict_get row ''searchValue'')))
         \<and> (global_connection_pool e = Some p
              \<and> others e p (clock s) + held s p < pool_size e p \<and> insert_fault e = None
            \<longrightarrow> fst (process_row e row uniqueid s)
                  = Inr (Error ''Failed to start task.'' (dict_get row ''absoluteRowIndex'')
                           (dict_get row ''searchValue'')))"
  using assms
  by (auto simp: process_row_def Let_def create_image_task_def dataset_split_of_def
        get_connection_def close_connection_def waits_append
        split: option.splits)

theorem no_task_id_fails_without_waiting_witness:
  "fst (process_row no_task_env nike_row (PStr ''batch1'') start)
     = Inr (Error ''Failed to start task.'' (PInt 7) (PStr ''red shoes''))
   \<and> waits (log (snd (process_row no_task_env nike_row (PStr ''batch1'') start))) = 0"
proof -
  have a: "create_reply no_task_env (dataset_split_of nike_row (PStr ''batch1''))
             = Inr [(''detail'', PStr ''queue full'')]"
    and b: "\<not> truthy (dict_get [(''detail'', PStr ''queue full'')] ''task_id'')"
    and c: "global_connection_pool no_task_env = Some 0
            \<and> others no_task_env 0 (clock start) + held start 0 < pool_size no_task_env 0
            \<and> insert_fault no_task_env = None"
    by (simp_all add: no_task_env_def idle_env_def dict_get_def start_def)
  from no_task_id_fails_without_waiting [OF a b, of start 0] c show ?thesis
    by (simp add: nike_row_def dict_get_def start_def)
qed

section \<open>Properties of the remote poll\<close>

lemma well_formedD:
  assumes "well_formed pe tid k"
  shows "poll_reply pe tid k = Inr (reply_data pe tid k)"
    and "map_of (reply_data pe tid k) ''status'' = Some (status_at pe tid k)"
  using assms
  by (auto simp: well_formed_def reply_data_def status_at_def dict_get_def split: sum.splits)

lemma tick_ge: "now \<le> tick pe n now k"
  by (induction k) auto

lemma poll_loop_stop:
  assumes "well_formed pe tid k"
      and "int (tick pe n now k) - int now > timeout \<or> terminal (status_at pe tid k)"
  shows "poll_loop (Suc extra) pe tid timeout now k (tick pe n now k) =
           Some (Inr (outcome pe tid timeout (tick pe n now k - now) k))"
proof -
  have el: "int (tick pe n now k - now) = int (tick pe n now k) - int now"
    using tick_ge [of now pe n k] by simp
  show ?thesis
    using assms(2) well_formedD [OF assms(1)]
    by (auto simp: outcome_def el terminal_def)
qed

lemma poll_loop_continue:
  assumes "well_formed pe tid k" and "POLL_INTERVAL pe = Inr n"
      and "\<not> int (tick pe n now k) - int now > timeout" and "\<not> terminal (status_at pe tid k)"
  shows "poll_loop (Suc fuel) pe tid timeout now k (tick pe n now k) =
           poll_loop fuel pe tid timeout now (Suc k) (tick pe n now (Suc k))"
  using assms(2-4) well_formedD [OF assms(1)]
  by (auto simp: terminal_def)

lemma poll_loop_run:
  assumes wf: "\<And>j. well_formed pe tid j" and iv: "POLL_INTERVAL pe = Inr n"
      and cont: "\<And>j. j < m \<Longrightarrow> \<not> int (tick pe n now j) - int now > timeout
                                  \<and> \<not> terminal (status_at pe tid j)"
  shows "k \<le> m \<Longrightarrow> poll_loop (m - k + fuel) pe tid timeout now k (tick pe n now k) =
           poll_loop fuel pe tid timeout now m (tick pe n now m)"
proof (induction "m - k" arbitrary: k)
  case 0
  then show ?case by simp
next
  case (Suc d)
  then have k: "k < m" "d = m - Suc k" "Suc k \<le> m" by simp_all
  have "m - k + fuel = Suc (m - Suc k + fuel)" using k by simp
  then have "poll_loop (m - k + fuel) pe tid timeout now k (tick pe n now k)
           = poll_loop (m - Suc k + fuel) pe tid timeout now (Suc k) (tick pe n now (Suc k))"
    using poll_loop_continue [OF wf iv, where now = now and k = k and timeout = timeout
            and fuel = "m - Suc k + fuel"] cont [OF k(1)]
    by simp
  also have "\<dots> = poll_loop fuel pe tid timeout now m (tick pe n now m)"
    by (rule Suc.hyps(1) [OF k(2) k(3)])
  finally show ?case .
qed

lemma tick_progress:
  assumes "\<And>k. 0 < get_latency pe k + nat n"
  shows "now + k \<le> tick pe n now k"
proof (induction k)
  case 0
  show ?case by simp
next
  case (Suc k)
  with assms [of k] show ?case by auto
qed

text \<open>
  Claim C8. For every sequence of poll responses (JSON objects with a status), with the
  poll interval configured and every turn taking time, \<^verbatim>\<open>poll_task_status\<close> with
  its default ceiling of 5000 returns: at the first turn \<open>k\<close> at which more than 5000
  units have passed or the status is one of Completed, Failed, Error, it returns the
  timeout error if the ceiling is exceeded, else the response data if the status is
  Completed, else the error result. Such a turn exists within 5001 turns.
\<close>

theorem poll_task_status_result:
  assumes wf: "\<And>k. well_formed pe tid k"
      and iv: "POLL_INTERVAL pe = Inr n"
      and progress: "\<And>k. 0 < get_latency pe k + nat n"
  shows "\<exists>k \<le> 5001.
           (\<forall>j < k. tick pe n now j - now \<le> 5000 \<and> \<not> terminal (status_at pe tid j))
         \<and> (5000 < tick pe n now k - now \<or> terminal (status_at pe tid k))
         \<and> (\<forall>fuel > k. poll_task_status fuel pe tid default_timeout now =
               Some (Inr (if 5000 < tick pe n now k - now
                          then [(''error'', PStr ''Polling timeout reached. Task abandoned.'')]
                          else if status_at pe tid k = PStr ''Completed''
                          then reply_data pe tid k
                          else [(''error'', PStr ''Task failed or encountered an error'')])))"
proof -
  define stop where
    "stop k = (int (tick pe n now k) - int now > 5000 \<or> terminal (status_at pe tid k))" for k
  have el: "int (tick pe n now k) - int now > 5000 \<longleftrightarrow> 5000 < tick pe n now k - now" for k
    using tick_ge [of now pe n k] by auto
  have "stop 5001"
    using tick_progress [OF progress, of now 5001] by (simp add: stop_def)
  then obtain k where k: "stop k" and least: "\<And>j. j < k \<Longrightarrow> \<not> stop j"
    using exists_least_iff [of stop] by blast
  have k_le: "k \<le> 5001"
  proof (rule ccontr)
    assume "\<not> k \<le> 5001"
    then have "5001 < k" by simp
    from least [OF this] \<open>stop 5001\<close> show False by simp
  qed
  have before: "\<forall>j < k. tick pe n now j - now \<le> 5000 \<and> \<not> terminal (status_at pe tid j)"
    using least by (fastforce simp: stop_def el not_less)
  have run: "poll_task_status fuel pe tid default_timeout now =
      Some (Inr (outcome pe tid 5000 (tick pe n now k - now) k))" if "k < fuel" for fuel
  proof -
    from that obtain extra where fuel: "fuel = k - 0 + Suc extra"
      by (metis Suc_diff_Suc add_Suc_right diff_zero le_add_diff_inverse less_or_eq_imp_le)
    have "poll_loop fuel pe tid 5000 now 0 (tick pe n now 0)
            = poll_loop (Suc extra) pe tid 5000 now k (tick pe n now k)"
      unfolding fuel
      by (rule poll_loop_run [OF wf iv]) (use least in \<open>auto simp: stop_def\<close>)
    also have "\<dots> = Some (Inr (outcome pe tid 5000 (tick pe n now k - now) k))"
      by (rule poll_loop_stop [OF wf]) (use k in \<open>simp add: stop_def\<close>)
    finally show ?thesis
      by (simp add: poll_task_status_def default_timeout_def)
  qed
  from k have stopk: "5000 < tick pe n now k - now \<or> terminal (status_at pe tid k)"
    by (simp add: stop_def el)
  show ?thesis
    using k_le before stopk run
    by (intro exI [of _ k]) (simp add: outcome_def)
qed

theorem poll_task_status_result_witness:
  "poll_task_status 2 demo_poll (PStr ''t1'') default_timeout 0 =
     Some (Inr [(''status'', PStr ''Completed''), (''url'', PStr ''http://x/img.jpg'')])"
proof -
  have wf: "\<And>k. well_formed demo_poll (PStr ''t1'') k"
    by (simp add: well_formed_def demo_poll_def)
  have iv: "POLL_INTERVAL demo_poll = Inr 60" by (simp add: demo_poll_def)
  have pr: "\<And>k. 0 < get_latency demo_poll k + nat 60" by simp
  have s0: "\<not> terminal (status_at demo_poll (PStr ''t1'') 0)"
    and s1: "terminal (status_at demo_poll (PStr ''t1'') 1)"
    and t0: "tick demo_poll 60 0 0 - 0 \<le> 5000"
    and t1: "\<not> 5000 < tick demo_poll 60 0 1 - 0"
    and d1: "status_at demo_poll (PStr ''t1'') 1 = PStr ''Completed''"
       "reply_data demo_poll (PStr ''t1'') 1
          = [(''status'', PStr ''Completed''), (''url'', PStr ''http://x/img.jpg'')]"
    by (simp_all add: terminal_def status_at_def reply_data_def demo_poll_def dict_get_def)
  from poll_task_status_result [OF wf iv pr, of 0]
  obtain k where before: "\<forall>j < k. tick demo_poll 60 0 j - 0 \<le> 5000
        \<and> \<not> terminal (status_at demo_poll (PStr ''t1'') j)"
    and stop: "5000 < tick demo_poll 60 0 k - 0 \<or> terminal (status_at demo_poll (PStr ''t1'') k)"
    and run: "\<forall>fuel > k. poll_task_status fuel demo_poll (PStr ''t1'') default_timeout 0 =
               Some (Inr (if 5000 < tick demo_poll 60 0 k - 0
                          then [(''error'', PStr ''Polling timeout reached. Task abandoned.'')]
                          else if status_at demo_poll (PStr ''t1'') k = PStr ''Completed''
                          then reply_data demo_poll (PStr ''t1'') k
                          else [(''error'', PStr ''Task failed or encountered an error'')]))"
    by blast
  have "k \<noteq> 0" using stop s0 t0 by (cases "k = 0") auto
  moreover have "\<not> 1 < k" using before s1 by auto
  ultimately have "k = 1" by simp
  with run t1 d1 show ?thesis by simp
qed

end
